theory Spec2Isabelle
  imports Complex_Main
begin

section \<open>Hermitian rank-2k update: \<open>include/blas/her2k.hpp\<close>\<close>

text \<open>
  The selectors of \<open>blas/utils.hpp\<close>. That header is not part of the sources at hand; the
  three enumerations are taken with the values the routine compares against
  (\<open>Layout::ColMajor\<close>, \<open>Layout::RowMajor\<close>, \<open>Uplo::Lower\<close>, \<open>Uplo::Upper\<close>,
  \<open>Uplo::General\<close>, \<open>Op::NoTrans\<close>, \<open>Op::Trans\<close>, \<open>Op::ConjTrans\<close>).
\<close>

datatype Layout = ColMajor | RowMajor

datatype Uplo = Upper | Lower | General

datatype Op = NoTrans | Trans | ConjTrans

text \<open>
  Modelled from the spec: \<open>blas_error_if\<close> (a macro of \<open>blas/utils.hpp\<close>) is missing. The
  spec says the routine "fails with an invalid-argument condition" when a check fires, so a
  check that fires ends the call with the value \<open>Inl InvalidArgument\<close> and nothing after
  it runs.
\<close>

datatype blas_error = InvalidArgument

text \<open>
  A scalar is a complex number (\<open>scalar_t\<close>; a real element type is the subfield with zero
  imaginary part, where \<open>conj\<close> is the identity and \<open>real\<close> the value itself); \<open>beta\<close> is
  of the real type. Arithmetic is that of the field: rounding is not modelled. An array
  argument is a pointer, modelled as the memory behind it: a function from offsets to
  scalars. The index type \<open>blas::size_t\<close> is modelled by \<open>nat\<close>: a negative \<open>n\<close> or \<open>k\<close>,
  which the checks of lines 117-118 reject, is not an input of the model, and offsets do
  not wrap around.
\<close>

type_synonym scalar_array = "nat \<Rightarrow> complex"

text \<open>The macros \<open>A(i_, j_)\<close>, \<open>B(i_, j_)\<close>, \<open>C(i_, j_)\<close>: offset \<open>(i_) + (j_)*ld\<close>.\<close>

definition offs :: "nat \<Rightarrow> nat \<Rightarrow> nat \<Rightarrow> nat" where
  "offs ld i j = i + j * ld"

subsection \<open>The loops over one column\<close>

text \<open>\<open>for i in is: C(i,j) = zero\<close>\<close>

definition zero_rows :: "nat \<Rightarrow> nat \<Rightarrow> nat list \<Rightarrow> scalar_array \<Rightarrow> scalar_array" where
  "zero_rows ldc j is C = fold (\<lambda>i C. C(offs ldc i j := 0)) is C"

text \<open>\<open>for i in is: C(i,j) *= beta\<close>\<close>

definition scale_rows :: "real \<Rightarrow> nat \<Rightarrow> nat \<Rightarrow> nat list \<Rightarrow> scalar_array \<Rightarrow> scalar_array" where
  "scale_rows beta ldc j is C =
     fold (\<lambda>i C. C(offs ldc i j := C (offs ldc i j) * of_real beta)) is C"

text \<open>\<open>C(j,j) = beta * real( C(j,j) )\<close>\<close>

definition scale_diag :: "real \<Rightarrow> nat \<Rightarrow> nat \<Rightarrow> scalar_array \<Rightarrow> scalar_array" where
  "scale_diag beta ldc j C = C(offs ldc j j := of_real (beta * Re (C (offs ldc j j))))"

text \<open>
  The body of the loop over \<open>l\<close> in the \<open>NoTrans\<close> case (lines 225-232 and 245-252): the
  two products, the update of the rows \<open>is\<close> of column \<open>j\<close> and the update of the
  diagonal entry. In the upper case the rows come first, in the lower case the diagonal.
\<close>

definition alphaConjBjl :: "complex \<Rightarrow> scalar_array \<Rightarrow> nat \<Rightarrow> nat \<Rightarrow> nat \<Rightarrow> complex" where
  "alphaConjBjl alpha B ldb j l = alpha * cnj (B (offs ldb j l))"

definition conjAlphaAjl :: "complex \<Rightarrow> scalar_array \<Rightarrow> nat \<Rightarrow> nat \<Rightarrow> nat \<Rightarrow> complex" where
  "conjAlphaAjl alpha A lda j l = cnj (alpha * A (offs lda j l))"

definition rank1_rows ::
  "complex \<Rightarrow> scalar_array \<Rightarrow> nat \<Rightarrow> scalar_array \<Rightarrow> nat \<Rightarrow> nat \<Rightarrow> nat \<Rightarrow> nat \<Rightarrow> nat list
    \<Rightarrow> scalar_array \<Rightarrow> scalar_array" where
  "rank1_rows alpha A lda B ldb ldc j l is C =
     fold (\<lambda>i C. C(offs ldc i j := C (offs ldc i j)
                     + (A (offs lda i l) * alphaConjBjl alpha B ldb j l
                        + B (offs ldb i l) * conjAlphaAjl alpha A lda j l))) is C"

definition rank1_diag ::
  "complex \<Rightarrow> scalar_array \<Rightarrow> nat \<Rightarrow> scalar_array \<Rightarrow> nat \<Rightarrow> nat \<Rightarrow> nat \<Rightarrow> nat
    \<Rightarrow> scalar_array \<Rightarrow> scalar_array" where
  "rank1_diag alpha A lda B ldb ldc j l C =
     C(offs ldc j j := C (offs ldc j j)
         + of_real (2 * Re (A (offs lda j l) * alphaConjBjl alpha B ldb j l)))"

text \<open>Lines 217-234: column \<open>j\<close>, \<open>NoTrans\<close>, \<open>uplo != Lower\<close>.\<close>

definition notrans_upper_col ::
  "nat \<Rightarrow> complex \<Rightarrow> scalar_array \<Rightarrow> nat \<Rightarrow> scalar_array \<Rightarrow> nat \<Rightarrow> real \<Rightarrow> nat \<Rightarrow> nat
    \<Rightarrow> scalar_array \<Rightarrow> scalar_array" where
  "notrans_upper_col k alpha A lda B ldb beta ldc j C =
     fold (\<lambda>l C. rank1_diag alpha A lda B ldb ldc j l
                   (rank1_rows alpha A lda B ldb ldc j l [0..<j] C))
       [0..<k]
       (scale_diag beta ldc j (scale_rows beta ldc j [0..<j] C))"

text \<open>Lines 237-254: column \<open>j\<close>, \<open>NoTrans\<close>, \<open>uplo == Lower\<close>.\<close>

definition notrans_lower_col ::
  "nat \<Rightarrow> nat \<Rightarrow> complex \<Rightarrow> scalar_array \<Rightarrow> nat \<Rightarrow> scalar_array \<Rightarrow> nat \<Rightarrow> real \<Rightarrow> nat \<Rightarrow> nat
    \<Rightarrow> scalar_array \<Rightarrow> scalar_array" where
  "notrans_lower_col n k alpha A lda B ldb beta ldc j C =
     fold (\<lambda>l C. rank1_rows alpha A lda B ldb ldc j l [Suc j..<n]
                   (rank1_diag alpha A lda B ldb ldc j l C))
       [0..<k]
       (scale_rows beta ldc j [Suc j..<n] (scale_diag beta ldc j C))"

text \<open>
  Lines 263-268 and 283-288: the two sums over \<open>l\<close> of the \<open>ConjTrans\<close> case, each
  started at \<open>zero\<close>.
\<close>

definition sum1 :: "nat \<Rightarrow> scalar_array \<Rightarrow> nat \<Rightarrow> scalar_array \<Rightarrow> nat \<Rightarrow> nat \<Rightarrow> nat \<Rightarrow> complex" where
  "sum1 k A lda B ldb i j =
     fold (\<lambda>l s. s + cnj (A (offs lda l i)) * B (offs ldb l j)) [0..<k] 0"

definition sum2 :: "nat \<Rightarrow> scalar_array \<Rightarrow> nat \<Rightarrow> scalar_array \<Rightarrow> nat \<Rightarrow> nat \<Rightarrow> nat \<Rightarrow> complex" where
  "sum2 k A lda B ldb i j =
     fold (\<lambda>l s. s + cnj (B (offs ldb l i)) * A (offs lda l j)) [0..<k] 0"

text \<open>
  Lines 270-273 and 290-293: the assignment to \<open>C(i,j)\<close>. The condition of the source is
  \<open>i < j\<close> in the upper case and \<open>i > j\<close> in the lower case; on the rows each loop visits
  both say \<open>i \<noteq> j\<close>, and they are kept apart here as the flag \<open>offdiag\<close>.
\<close>

definition conjtrans_entry ::
  "bool \<Rightarrow> nat \<Rightarrow> complex \<Rightarrow> scalar_array \<Rightarrow> nat \<Rightarrow> scalar_array \<Rightarrow> nat \<Rightarrow> real \<Rightarrow> nat \<Rightarrow> nat \<Rightarrow> nat
    \<Rightarrow> scalar_array \<Rightarrow> scalar_array" where
  "conjtrans_entry offdiag k alpha A lda B ldb beta ldc j i C =
     C(offs ldc i j :=
         (if offdiag
          then alpha * sum1 k A lda B ldb i j + cnj alpha * sum2 k A lda B ldb i j
                 + of_real beta * C (offs ldc i j)
          else of_real (Re (alpha * sum1 k A lda B ldb i j + cnj alpha * sum2 k A lda B ldb i j)
                 + beta * Re (C (offs ldc i j)))))"

text \<open>Lines 261-274: column \<open>j\<close>, \<open>ConjTrans\<close>, \<open>uplo != Lower\<close>.\<close>

definition conjtrans_upper_col ::
  "nat \<Rightarrow> complex \<Rightarrow> scalar_array \<Rightarrow> nat \<Rightarrow> scalar_array \<Rightarrow> nat \<Rightarrow> real \<Rightarrow> nat \<Rightarrow> nat
    \<Rightarrow> scalar_array \<Rightarrow> scalar_array" where
  "conjtrans_upper_col k alpha A lda B ldb beta ldc j C =
     fold (\<lambda>i C. conjtrans_entry (i < j) k alpha A lda B ldb beta ldc j i C) [0..<Suc j] C"

text \<open>Lines 281-294: column \<open>j\<close>, \<open>ConjTrans\<close>, \<open>uplo == Lower\<close>.\<close>

definition conjtrans_lower_col ::
  "nat \<Rightarrow> nat \<Rightarrow> complex \<Rightarrow> scalar_array \<Rightarrow> nat \<Rightarrow> scalar_array \<Rightarrow> nat \<Rightarrow> real \<Rightarrow> nat \<Rightarrow> nat
    \<Rightarrow> scalar_array \<Rightarrow> scalar_array" where
  "conjtrans_lower_col n k alpha A lda B ldb beta ldc j C =
     fold (\<lambda>i C. conjtrans_entry (j < i) k alpha A lda B ldb beta ldc j i C) [j..<n] C"

text \<open>Lines 301-304: \<open>for i in j+1..n-1: C(i,j) = conj( C(j,i) )\<close>, for every column.\<close>

definition mirror_col :: "nat \<Rightarrow> nat \<Rightarrow> nat \<Rightarrow> scalar_array \<Rightarrow> scalar_array" where
  "mirror_col n ldc j C = fold (\<lambda>i C. C(offs ldc i j := cnj (C (offs ldc j i)))) [Suc j..<n] C"

definition mirror :: "nat \<Rightarrow> nat \<Rightarrow> scalar_array \<Rightarrow> scalar_array" where
  "mirror n ldc C = fold (mirror_col n ldc) [0..<n] C"

subsection \<open>The routine\<close>

text \<open>
  Lines 165-211, the case \<open>alpha == zero\<close>. The order of the tests on \<open>uplo\<close> is the
  order of the source. \<open>beta\<close> is compared with the constants \<open>zero\<close> and \<open>one\<close> of the
  scalar type, which is the comparison of the real numbers.
\<close>

definition her2k_alpha_zero :: "Uplo \<Rightarrow> nat \<Rightarrow> real \<Rightarrow> scalar_array \<Rightarrow> nat \<Rightarrow> scalar_array" where
  "her2k_alpha_zero uplo n beta C ldc =
     (if beta = 0 then
        (if uplo \<noteq> Upper then
           fold (\<lambda>j C. zero_rows ldc j [0..<Suc j] C) [0..<n] C
         else if uplo \<noteq> Lower then
           fold (\<lambda>j C. zero_rows ldc j [j..<n] C) [0..<n] C
         else
           fold (\<lambda>j C. zero_rows ldc j [0..<n] C) [0..<n] C)
      else if beta \<noteq> 1 then
        (if uplo \<noteq> Upper then
           fold (\<lambda>j C. scale_diag beta ldc j (scale_rows beta ldc j [0..<j] C)) [0..<n] C
         else if uplo \<noteq> Lower then
           fold (\<lambda>j C. scale_rows beta ldc j [Suc j..<n] (scale_diag beta ldc j C)) [0..<n] C
         else
           fold (\<lambda>j C. scale_rows beta ldc j [Suc j..<n]
                         (scale_diag beta ldc j (scale_rows beta ldc j [0..<j] C))) [0..<n] C)
      else C)"

text \<open>Lines 214-298, the case \<open>alpha != zero\<close>.\<close>

definition her2k_update ::
  "Uplo \<Rightarrow> Op \<Rightarrow> nat \<Rightarrow> nat \<Rightarrow> complex \<Rightarrow> scalar_array \<Rightarrow> nat \<Rightarrow> scalar_array \<Rightarrow> nat \<Rightarrow> real
    \<Rightarrow> scalar_array \<Rightarrow> nat \<Rightarrow> scalar_array" where
  "her2k_update uplo tr n k alpha A lda B ldb beta C ldc =
     (if tr = NoTrans then
        (if uplo \<noteq> Lower then
           fold (notrans_upper_col k alpha A lda B ldb beta ldc) [0..<n] C
         else
           fold (notrans_lower_col n k alpha A lda B ldb beta ldc) [0..<n] C)
      else
        (if uplo \<noteq> Lower then
           fold (conjtrans_upper_col k alpha A lda B ldb beta ldc) [0..<n] C
         else
           fold (conjtrans_lower_col n k alpha A lda B ldb beta ldc) [0..<n] C))"

text \<open>
  Lines 157-305: everything after the adaptation to the layout, on the column-major
  reading of the storage: the check of \<open>ldc\<close>, the quick return, the two cases of \<open>alpha\<close>
  and the final mirroring for \<open>Uplo::General\<close>, which the return at line 210 skips.
\<close>

definition her2k_colmajor ::
  "Uplo \<Rightarrow> Op \<Rightarrow> nat \<Rightarrow> nat \<Rightarrow> complex \<Rightarrow> scalar_array \<Rightarrow> nat \<Rightarrow> scalar_array \<Rightarrow> nat \<Rightarrow> real
    \<Rightarrow> scalar_array \<Rightarrow> nat \<Rightarrow> blas_error + scalar_array" where
  "her2k_colmajor uplo tr n k alpha A lda B ldb beta C ldc =
     (if ldc < n then Inl InvalidArgument
      else if n = 0 then Inr C
      else if alpha = 0 then Inr (her2k_alpha_zero uplo n beta C ldc)
      else
        (let C' = her2k_update uplo tr n k alpha A lda B ldb beta C ldc
         in if uplo = General then Inr (mirror n ldc C') else Inr C'))"

text \<open>Lines 142-148: the selectors of the column-major problem.\<close>

definition swap_uplo :: "Uplo \<Rightarrow> Uplo" where
  "swap_uplo uplo = (if uplo = Lower then Upper else if uplo = Upper then Lower else uplo)"

definition flip_trans :: "Op \<Rightarrow> Op" where
  "flip_trans tr = (if tr = NoTrans then ConjTrans else NoTrans)"

text \<open>
  Lines 111-155, then the rest. The result is the memory behind \<open>C\<close> on return, or the
  error. The checks on \<open>layout\<close> and \<open>uplo\<close> cannot fire on the datatypes.
\<close>

definition her2k ::
  "Layout \<Rightarrow> Uplo \<Rightarrow> Op \<Rightarrow> nat \<Rightarrow> nat \<Rightarrow> complex \<Rightarrow> scalar_array \<Rightarrow> nat \<Rightarrow> scalar_array \<Rightarrow> nat
    \<Rightarrow> real \<Rightarrow> scalar_array \<Rightarrow> nat \<Rightarrow> blas_error + scalar_array" where
  "her2k layout uplo tr n k alpha A lda B ldb beta C ldc =
     (if tr \<noteq> NoTrans \<and> tr \<noteq> ConjTrans then Inl InvalidArgument
      else if layout = RowMajor then
        (if lda < (if tr = NoTrans then k else n) then Inl InvalidArgument
         else if ldb < (if tr = NoTrans then k else n) then Inl InvalidArgument
         else her2k_colmajor (swap_uplo uplo) (flip_trans tr) n k (cnj alpha)
                A lda B ldb beta C ldc)
      else
        (if lda < (if tr = NoTrans then n else k) then Inl InvalidArgument
         else if ldb < (if tr = NoTrans then n else k) then Inl InvalidArgument
         else her2k_colmajor uplo tr n k alpha A lda B ldb beta C ldc))"

subsection \<open>Reading a matrix out of the storage\<close>

text \<open>
  Entry \<open>(i, j)\<close> of the matrix stored with leading dimension \<open>ld\<close>: column-major storage
  keeps it at offset \<open>i + j*ld\<close>, row-major storage at offset \<open>i*ld + j\<close> (the documented
  "\<open>ldc\<close>-by-\<open>n\<close> array, RowMajor: \<open>n\<close>-by-\<open>ldc\<close>").
\<close>

definition entry :: "Layout \<Rightarrow> nat \<Rightarrow> scalar_array \<Rightarrow> nat \<Rightarrow> nat \<Rightarrow> complex" where
  "entry layout ld M i j = (if layout = RowMajor then M (offs ld j i) else M (offs ld i j))"

text \<open>
  The triangle of \<open>C\<close> that \<open>uplo\<close> declares referenced, diagonal included, in matrix
  coordinates (row \<open>i\<close>, column \<open>j\<close>).
\<close>

definition referenced :: "Uplo \<Rightarrow> nat \<Rightarrow> nat \<Rightarrow> bool" where
  "referenced uplo i j = (case uplo of Lower \<Rightarrow> j \<le> i | Upper \<Rightarrow> i \<le> j | General \<Rightarrow> True)"

section \<open>Blocked LQ factorization: \<open>include/lapack/gelqf.hpp\<close>\<close>

text \<open>
  The selectors of \<open>base/types.hpp\<close> that the routine passes on (the header is missing
  from the sources at hand). The operation selector is the datatype \<open>Op\<close> above.
\<close>

datatype Side = Left | Right

datatype Direction = Forward | Backward

datatype StoreV = Colwise | Rowwise

text \<open>
  Modelled from the spec: the matrix abstraction (\<open>nrows\<close>, \<open>ncols\<close>, \<open>size\<close>,
  \<open>write_policy\<close> with \<open>access_denied\<close>, element access) is missing. A matrix has
  "row/column counts", "read/write element access by (row, column)", and either grants
  write access or not; \<open>write_denied\<close> stands for
  \<open>access_denied(dense, write_policy(A))\<close>. The element type \<open>'e\<close> is the template
  parameter. A vector is a list, \<open>size(work)\<close> its length.
\<close>

record 'e matrix =
  nrows :: nat
  ncols :: nat
  write_denied :: bool
  elems :: "nat \<Rightarrow> nat \<Rightarrow> 'e"

text \<open>
  The three arguments that \<open>gelqf\<close> takes by reference, \<open>A\<close>, \<open>TT\<close> and \<open>work\<close>:
  the state that the call and the routines it calls work on.
\<close>

record 'e gelqf_args =
  arg_A :: "'e matrix"
  arg_TT :: "'e matrix"
  arg_work :: "'e list"

text \<open>
  Modelled from the spec: \<open>slice\<close> and \<open>diag\<close> are missing. They give "zero-copy aliases
  into the same backing store", so a view is the name of what it aliases: the rows
  \<open>[fst rows, snd rows)\<close> and columns \<open>[fst cols, snd cols)\<close> of the argument \<open>A\<close>
  (\<open>Mat_A\<close>) or \<open>TT\<close> (\<open>Mat_TT\<close>), the diagonal of such a view, or the vector \<open>work\<close> itself. The index type
  \<open>idx_t\<close> is modelled by \<open>nat\<close>.
\<close>

type_synonym range = "nat \<times> nat"

datatype operand = Mat_A | Mat_TT

datatype view = slice operand range range | diag view | work

text \<open>
  The routines \<open>gelq2\<close>, \<open>larft\<close> and \<open>larfb\<close> are missing from the sources at hand.
  \<open>gelqf\<close> takes them as parameters: each receives the arguments of the call in the
  source and transforms the state. \<open>gelqf\<close> discards what they return.
\<close>

type_synonym 'e gelq2_t = "view \<Rightarrow> view \<Rightarrow> view \<Rightarrow> 'e gelqf_args \<Rightarrow> 'e gelqf_args"

type_synonym 'e larft_t =
  "Direction \<Rightarrow> StoreV \<Rightarrow> view \<Rightarrow> view \<Rightarrow> view \<Rightarrow> 'e gelqf_args \<Rightarrow> 'e gelqf_args"

type_synonym 'e larfb_t =
  "Side \<Rightarrow> Op \<Rightarrow> Direction \<Rightarrow> StoreV \<Rightarrow> view \<Rightarrow> view \<Rightarrow> view \<Rightarrow> view
    \<Rightarrow> 'e gelqf_args \<Rightarrow> 'e gelqf_args"

text \<open>Lines 86-111: the body of the loop, for the panel that starts at \<open>j\<close>.\<close>

definition gelqf_panel ::
  "'e gelq2_t \<Rightarrow> 'e larft_t \<Rightarrow> 'e larfb_t \<Rightarrow> nat \<Rightarrow> nat \<Rightarrow> nat \<Rightarrow> nat \<Rightarrow> nat
    \<Rightarrow> 'e gelqf_args \<Rightarrow> 'e gelqf_args" where
  "gelqf_panel gelq2 larft larfb m n k nb j s =
     (let ib = min nb (k - j);
          TT1 = slice Mat_TT (j, j + ib) (0, ib);
          A11 = slice Mat_A (j, j + ib) (j, n);
          tauw1 = diag TT1;
          s1 = gelq2 A11 tauw1 work s
      in if j + ib < k then
           (let s2 = larft Forward Rowwise A11 tauw1 TT1 s1;
                A12 = slice Mat_A (j + ib, m) (j, n);
                work1 = slice Mat_TT (j + ib, m) (0, ib)
            in larfb Right NoTrans Forward Rowwise A11 TT1 A12 work1 s2)
         else s1)"

text \<open>
  Line 84: \<open>for (idx_t j = 0; j < k; j += nb)\<close>, entered at \<open>j\<close>. The loop need not
  end; \<open>None\<close> is the run that never leaves it.
\<close>

partial_function (option) gelqf_loop ::
  "'e gelq2_t \<Rightarrow> 'e larft_t \<Rightarrow> 'e larfb_t \<Rightarrow> nat \<Rightarrow> nat \<Rightarrow> nat \<Rightarrow> nat \<Rightarrow> nat
    \<Rightarrow> 'e gelqf_args \<Rightarrow> 'e gelqf_args option" where
  "gelqf_loop gelq2 larft larfb m n k nb j s =
     (if j < k
      then gelqf_loop gelq2 larft larfb m n k nb (j + nb)
             (gelqf_panel gelq2 larft larfb m n k nb j s)
      else Some s)"

text \<open>
  Modelled from the spec: \<open>tlapack_check_false\<close> (a macro of \<open>base/utils.hpp\<close>) is
  missing. The spec has "a narrow invalid-argument condition per routine, identified by a
  position-indexed code", so \<open>tlapack_check_false(cond, code)\<close> returns \<open>code\<close> at once
  when \<open>cond\<close> holds.

  Lines 75-114. The result is the returned \<open>int\<close> with the state on return, or \<open>None\<close>
  when the call does not return.
\<close>

definition gelqf ::
  "'e gelq2_t \<Rightarrow> 'e larft_t \<Rightarrow> 'e larfb_t \<Rightarrow> 'e gelqf_args \<Rightarrow> nat
    \<Rightarrow> (int \<times> 'e gelqf_args) option" where
  "gelqf gelq2 larft larfb s nb =
     (let m = nrows (arg_A s); n = ncols (arg_A s); k = min m n
      in if write_denied (arg_A s) then Some (- 1, s)
         else if nrows (arg_TT s) < m \<or> ncols (arg_TT s) < nb then Some (- 2, s)
         else if length (arg_work s) < m then Some (- 3, s)
         else map_option (Pair 0) (gelqf_loop gelq2 larft larfb m n k nb 0 s))"

text \<open>
  The starts of the panels of a run with block height \<open>nb\<close> over \<open>k\<close> rows:
  \<open>0, nb, 2*nb, \<dots>\<close>, one for each of the \<open>\<lceil>k / nb\<rceil>\<close> panels.
\<close>

definition panel_starts :: "nat \<Rightarrow> nat \<Rightarrow> nat list" where
  "panel_starts nb k = map (\<lambda>i. i * nb) [0..<(k + nb - 1) div nb]"

section \<open>Concrete inputs\<close>

text \<open>
  Arrays and arguments at which the routines are run below: the array of zeros, the array
  \<open>1, 2, 3, \<dots>\<close>, the array that holds the imaginary unit everywhere, and the two unit
  vectors of length two.
\<close>

definition zeros :: scalar_array where
  "zeros = (\<lambda>p. 0)"

definition counting :: scalar_array where
  "counting = (\<lambda>p. of_nat (Suc p))"

definition imag_units :: scalar_array where
  "imag_units = (\<lambda>p. \<i>)"

definition unit_0 :: scalar_array where
  "unit_0 = (\<lambda>p. if p = 0 then 1 else 0)"

definition unit_1 :: scalar_array where
  "unit_1 = (\<lambda>p. if p = 1 then 1 else 0)"

text \<open>
  For \<open>gelqf\<close>: an \<open>r\<close>-by-\<open>c\<close> matrix of zeros with write access; arguments with an
  \<open>m\<close>-by-\<open>n\<close> matrix \<open>A\<close>, an \<open>m\<close>-by-\<open>nb\<close> matrix \<open>TT\<close> and \<open>work\<close> of length \<open>m\<close>;
  the same with \<open>A\<close> read-only. The three stand-ins for \<open>gelq2\<close>, \<open>larft\<close> and \<open>larfb\<close>
  count their calls in \<open>work\<close>: each call adds 1, 10 or 100 to every entry.
\<close>

definition ex_matrix :: "nat \<Rightarrow> nat \<Rightarrow> nat matrix" where
  "ex_matrix r c = \<lparr>nrows = r, ncols = c, write_denied = False, elems = (\<lambda>i j. 0)\<rparr>"

definition ex_args :: "nat \<Rightarrow> nat \<Rightarrow> nat \<Rightarrow> nat gelqf_args" where
  "ex_args m n nb = \<lparr>arg_A = ex_matrix m n, arg_TT = ex_matrix m nb, arg_work = replicate m 0\<rparr>"

definition ex_args_read_only :: "nat \<Rightarrow> nat \<Rightarrow> nat \<Rightarrow> nat gelqf_args" where
  "ex_args_read_only m n nb = (ex_args m n nb)\<lparr>arg_A := (ex_matrix m n)\<lparr>write_denied := True\<rparr>\<rparr>"

definition count_gelq2 :: "nat gelq2_t" where
  "count_gelq2 A11 tauw1 w s = s\<lparr>arg_work := map (\<lambda>x. x + 1) (arg_work s)\<rparr>"

definition count_larft :: "nat larft_t" where
  "count_larft d sv V tau T s = s\<lparr>arg_work := map (\<lambda>x. x + 10) (arg_work s)\<rparr>"

definition count_larfb :: "nat larfb_t" where
  "count_larfb sd tr d sv V T C' W s = s\<lparr>arg_work := map (\<lambda>x. x + 100) (arg_work s)\<rparr>"

section \<open>Properties of \<open>her2k\<close>\<close>

subsection \<open>Offsets and loops that write single entries\<close>

lemma offs_inj:
  assumes "i < ld" "i' < ld"
  shows "(offs ld i j = offs ld i' j') = (i = i' \<and> j = j')"
proof
  assume eq: "offs ld i j = offs ld i' j'"
  then have "(i + j * ld) div ld = (i' + j' * ld) div ld" by (simp add: offs_def)
  with assms have "j = j'" by simp
  with eq show "i = i' \<and> j = j'" by (simp add: offs_def)
qed simp

lemma offs_same_col [simp]: "(offs ld i j = offs ld i' j) = (i = i')"
  by (simp add: offs_def)

lemma fold_frame:
  "(\<And>x X. x \<in> set xs \<Longrightarrow> f x X p = X p) \<Longrightarrow> fold f xs C p = C p"
  by (induction xs arbitrary: C) simp_all

lemma fold_upt_at:
  assumes "j < n" and "\<And>j' X. j' < n \<Longrightarrow> j' \<noteq> j \<Longrightarrow> f j' X p = X p"
  shows "fold f [0..<n] C p = f j (fold f [0..<j] C) p"
proof -
  have split: "[0..<n] = [0..<j] @ j # [Suc j..<n]"
    using assms(1) by (metis less_imp_add_positive upt_add_eq_append upt_conv_Cons zero_le le_add1 less_eq_nat.simps(1))
  have "fold f [0..<n] C p = fold f [Suc j..<n] (f j (fold f [0..<j] C)) p"
    by (simp add: split)
  also have "\<dots> = f j (fold f [0..<j] C) p"
    by (rule fold_frame) (use assms(2) in auto)
  finally show ?thesis .
qed

lemma fold_upt_local:
  assumes "j < n" and "\<And>j' X. j' < n \<Longrightarrow> j' \<noteq> j \<Longrightarrow> f j' X p = X p"
    and "\<And>X. f j X p = v (X p)"
  shows "fold f [0..<n] C p = v (C p)"
proof -
  have "fold f [0..<j] C p = C p"
    by (rule fold_frame) (use assms(1,2) in auto)
  then show ?thesis
    using fold_upt_at [of j n f p C] assms by simp
qed

subsection \<open>What a column step leaves alone\<close>

lemma scale_rows_other:
  "(\<And>i. i \<in> set is \<Longrightarrow> p \<noteq> offs ldc i j) \<Longrightarrow> scale_rows beta ldc j is C p = C p"
  unfolding scale_rows_def by (rule fold_frame) auto

lemma rank1_rows_other:
  "(\<And>i. i \<in> set is \<Longrightarrow> p \<noteq> offs ldc i j)
    \<Longrightarrow> rank1_rows alpha A lda B ldb ldc j l is C p = C p"
  unfolding rank1_rows_def by (rule fold_frame) auto

lemma scale_diag_other: "p \<noteq> offs ldc j j \<Longrightarrow> scale_diag beta ldc j C p = C p"
  by (simp add: scale_diag_def)

lemma rank1_diag_other:
  "p \<noteq> offs ldc j j \<Longrightarrow> rank1_diag alpha A lda B ldb ldc j l C p = C p"
  by (simp add: rank1_diag_def)

lemma conjtrans_entry_other:
  "p \<noteq> offs ldc i j \<Longrightarrow> conjtrans_entry od k alpha A lda B ldb beta ldc j i C p = C p"
  by (simp add: conjtrans_entry_def)

lemma notrans_upper_col_other:
  assumes "\<And>i. i \<le> j \<Longrightarrow> p \<noteq> offs ldc i j"
  shows "notrans_upper_col k alpha A lda B ldb beta ldc j C p = C p"
proof -
  have rows: "\<And>i. i \<in> set [0..<j] \<Longrightarrow> p \<noteq> offs ldc i j" and d: "p \<noteq> offs ldc j j"
    using assms by auto
  let ?C0 = "scale_diag beta ldc j (scale_rows beta ldc j [0..<j] C)"
  have "notrans_upper_col k alpha A lda B ldb beta ldc j C p = ?C0 p"
    unfolding notrans_upper_col_def
  proof (rule fold_frame)
    fix l X
    have "rank1_diag alpha A lda B ldb ldc j l (rank1_rows alpha A lda B ldb ldc j l [0..<j] X) p
            = rank1_rows alpha A lda B ldb ldc j l [0..<j] X p"
      by (rule rank1_diag_other [OF d])
    also have "\<dots> = X p"
      by (rule rank1_rows_other [OF rows])
    finally show "rank1_diag alpha A lda B ldb ldc j l
                    (rank1_rows alpha A lda B ldb ldc j l [0..<j] X) p = X p" .
  qed
  also have "\<dots> = scale_rows beta ldc j [0..<j] C p"
    by (rule scale_diag_other [OF d])
  also have "\<dots> = C p"
    by (rule scale_rows_other [OF rows])
  finally show ?thesis .
qed

lemma notrans_lower_col_other:
  assumes "\<And>i. j \<le> i \<Longrightarrow> i < n \<Longrightarrow> p \<noteq> offs ldc i j" and "j < n"
  shows "notrans_lower_col n k alpha A lda B ldb beta ldc j C p = C p"
proof -
  have rows: "\<And>i. i \<in> set [Suc j..<n] \<Longrightarrow> p \<noteq> offs ldc i j" and d: "p \<noteq> offs ldc j j"
    using assms by auto
  let ?C0 = "scale_rows beta ldc j [Suc j..<n] (scale_diag beta ldc j C)"
  have "notrans_lower_col n k alpha A lda B ldb beta ldc j C p = ?C0 p"
    unfolding notrans_lower_col_def
  proof (rule fold_frame)
    fix l X
    have "rank1_rows alpha A lda B ldb ldc j l [Suc j..<n] (rank1_diag alpha A lda B ldb ldc j l X) p
            = rank1_diag alpha A lda B ldb ldc j l X p"
      by (rule rank1_rows_other [OF rows])
    also have "\<dots> = X p"
      by (rule rank1_diag_other [OF d])
    finally show "rank1_rows alpha A lda B ldb ldc j l [Suc j..<n]
                    (rank1_diag alpha A lda B ldb ldc j l X) p = X p" .
  qed
  also have "\<dots> = scale_diag beta ldc j C p"
    by (rule scale_rows_other [OF rows])
  also have "\<dots> = C p"
    by (rule scale_diag_other [OF d])
  finally show ?thesis .
qed

lemma conjtrans_upper_col_other:
  assumes "\<And>i. i \<le> j \<Longrightarrow> p \<noteq> offs ldc i j"
  shows "conjtrans_upper_col k alpha A lda B ldb beta ldc j C p = C p"
  unfolding conjtrans_upper_col_def
proof (rule fold_frame)
  fix i X
  assume "i \<in> set [0..<Suc j]"
  then have "i \<le> j" by auto
  then have "p \<noteq> offs ldc i j" by (rule assms)
  then show "conjtrans_entry (i < j) k alpha A lda B ldb beta ldc j i X p = X p"
    by (rule conjtrans_entry_other)
qed

lemma conjtrans_lower_col_other:
  assumes "\<And>i. j \<le> i \<Longrightarrow> i < n \<Longrightarrow> p \<noteq> offs ldc i j"
  shows "conjtrans_lower_col n k alpha A lda B ldb beta ldc j C p = C p"
  unfolding conjtrans_lower_col_def
proof (rule fold_frame)
  fix i X
  assume "i \<in> set [j..<n]"
  then have "j \<le> i" "i < n" by auto
  then have "p \<noteq> offs ldc i j" by (rule assms)
  then show "conjtrans_entry (j < i) k alpha A lda B ldb beta ldc j i X p = X p"
    by (rule conjtrans_entry_other)
qed

subsection \<open>The diagonal entry that a column step leaves\<close>

lemma scale_diag_at:
  "scale_diag beta ldc j C (offs ldc j j) = of_real (beta * Re (C (offs ldc j j)))"
  by (simp add: scale_diag_def)

lemma rank1_diag_at:
  "rank1_diag alpha A lda B ldb ldc j l C (offs ldc j j)
     = C (offs ldc j j) + of_real (2 * Re (A (offs lda j l) * alphaConjBjl alpha B ldb j l))"
  by (simp add: rank1_diag_def)

lemma conjtrans_entry_at:
  "conjtrans_entry False k alpha A lda B ldb beta ldc j j C (offs ldc j j)
     = of_real (Re (alpha * sum1 k A lda B ldb j j + cnj alpha * sum2 k A lda B ldb j j)
         + beta * Re (C (offs ldc j j)))"
  by (simp add: conjtrans_entry_def)

lemma notrans_upper_col_diag:
  "notrans_upper_col k alpha A lda B ldb beta ldc j C (offs ldc j j)
     = of_real (beta * Re (C (offs ldc j j))
         + (\<Sum>l<k. 2 * Re (A (offs lda j l) * alphaConjBjl alpha B ldb j l)))"
proof -
  let ?p = "offs ldc j j"
  let ?step = "\<lambda>l C. rank1_diag alpha A lda B ldb ldc j l
                        (rank1_rows alpha A lda B ldb ldc j l [0..<j] C)"
  let ?t = "\<lambda>l. 2 * Re (A (offs lda j l) * alphaConjBjl alpha B ldb j l)"
  have rows: "\<And>i. i \<in> set [0..<j] \<Longrightarrow> ?p \<noteq> offs ldc i j" by auto
  have loop: "fold ?step [0..<k] C0 ?p = C0 ?p + of_real (\<Sum>l<k. ?t l)" for C0
  proof (induction k)
    case 0
    show ?case by simp
  next
    case (Suc k)
    let ?X = "fold ?step [0..<k] C0"
    have "fold ?step [0..<Suc k] C0 ?p = ?step k ?X ?p"
      by simp
    also have "\<dots> = rank1_rows alpha A lda B ldb ldc j k [0..<j] ?X ?p + of_real (?t k)"
      by (rule rank1_diag_at)
    also have "rank1_rows alpha A lda B ldb ldc j k [0..<j] ?X ?p = ?X ?p"
      by (rule rank1_rows_other [OF rows])
    finally show ?case
      by (simp add: Suc.IH)
  qed
  have "scale_diag beta ldc j (scale_rows beta ldc j [0..<j] C) ?p
          = of_real (beta * Re (scale_rows beta ldc j [0..<j] C ?p))"
    by (rule scale_diag_at)
  also have "scale_rows beta ldc j [0..<j] C ?p = C ?p"
    by (rule scale_rows_other [OF rows])
  finally show ?thesis
    unfolding notrans_upper_col_def by (simp add: loop)
qed

lemma notrans_lower_col_diag:
  "notrans_lower_col n k alpha A lda B ldb beta ldc j C (offs ldc j j)
     = of_real (beta * Re (C (offs ldc j j))
         + (\<Sum>l<k. 2 * Re (A (offs lda j l) * alphaConjBjl alpha B ldb j l)))"
proof -
  let ?p = "offs ldc j j"
  let ?step = "\<lambda>l C. rank1_rows alpha A lda B ldb ldc j l [Suc j..<n]
                        (rank1_diag alpha A lda B ldb ldc j l C)"
  let ?t = "\<lambda>l. 2 * Re (A (offs lda j l) * alphaConjBjl alpha B ldb j l)"
  have rows: "\<And>i. i \<in> set [Suc j..<n] \<Longrightarrow> ?p \<noteq> offs ldc i j" by auto
  have loop: "fold ?step [0..<k] C0 ?p = C0 ?p + of_real (\<Sum>l<k. ?t l)" for C0
  proof (induction k)
    case 0
    show ?case by simp
  next
    case (Suc k)
    let ?X = "fold ?step [0..<k] C0"
    have "fold ?step [0..<Suc k] C0 ?p = ?step k ?X ?p"
      by simp
    also have "\<dots> = rank1_diag alpha A lda B ldb ldc j k ?X ?p"
      by (rule rank1_rows_other [OF rows])
    also have "\<dots> = ?X ?p + of_real (?t k)"
      by (rule rank1_diag_at)
    finally show ?case
      by (simp add: Suc.IH)
  qed
  have "scale_rows beta ldc j [Suc j..<n] (scale_diag beta ldc j C) ?p
          = scale_diag beta ldc j C ?p"
    by (rule scale_rows_other [OF rows])
  also have "\<dots> = of_real (beta * Re (C ?p))"
    by (rule scale_diag_at)
  finally show ?thesis
    unfolding notrans_lower_col_def by (simp add: loop)
qed

lemma conjtrans_upper_col_diag:
  "conjtrans_upper_col k alpha A lda B ldb beta ldc j C (offs ldc j j)
     = of_real (Re (alpha * sum1 k A lda B ldb j j + cnj alpha * sum2 k A lda B ldb j j)
         + beta * Re (C (offs ldc j j)))"
proof -
  let ?p = "offs ldc j j"
  let ?step = "\<lambda>i C. conjtrans_entry (i < j) k alpha A lda B ldb beta ldc j i C"
  let ?X = "fold ?step [0..<j] C"
  have before: "?X ?p = C ?p"
    by (rule fold_frame) (simp add: conjtrans_entry_other)
  have "conjtrans_upper_col k alpha A lda B ldb beta ldc j C ?p
          = conjtrans_entry False k alpha A lda B ldb beta ldc j j ?X ?p"
    by (simp add: conjtrans_upper_col_def)
  also have "\<dots> = of_real (Re (alpha * sum1 k A lda B ldb j j + cnj alpha * sum2 k A lda B ldb j j)
         + beta * Re (?X ?p))"
    by (rule conjtrans_entry_at)
  finally show ?thesis
    by (simp only: before)
qed

lemma conjtrans_lower_col_diag:
  assumes "j < n"
  shows "conjtrans_lower_col n k alpha A lda B ldb beta ldc j C (offs ldc j j)
     = of_real (Re (alpha * sum1 k A lda B ldb j j + cnj alpha * sum2 k A lda B ldb j j)
         + beta * Re (C (offs ldc j j)))"
proof -
  let ?p = "offs ldc j j"
  let ?step = "\<lambda>i C. conjtrans_entry (j < i) k alpha A lda B ldb beta ldc j i C"
  have split: "[j..<n] = j # [Suc j..<n]"
    using assms by (rule upt_conv_Cons)
  have "conjtrans_lower_col n k alpha A lda B ldb beta ldc j C ?p
          = fold ?step [Suc j..<n] (conjtrans_entry False k alpha A lda B ldb beta ldc j j C) ?p"
    by (simp add: conjtrans_lower_col_def split)
  also have "\<dots> = conjtrans_entry False k alpha A lda B ldb beta ldc j j C ?p"
    by (rule fold_frame) (simp add: conjtrans_entry_other)
  also have "\<dots> = of_real (Re (alpha * sum1 k A lda B ldb j j + cnj alpha * sum2 k A lda B ldb j j)
         + beta * Re (C ?p))"
    by (rule conjtrans_entry_at)
  finally show ?thesis .
qed

subsection \<open>The diagonal after the update\<close>

lemma her2k_update_diag:
  assumes "n \<le> ldc" "j < n"
  shows "her2k_update uplo tr n k alpha A lda B ldb beta C ldc (offs ldc j j)
     = (if tr = NoTrans
        then of_real (beta * Re (C (offs ldc j j))
               + (\<Sum>l<k. 2 * Re (A (offs lda j l) * alphaConjBjl alpha B ldb j l)))
        else of_real (Re (alpha * sum1 k A lda B ldb j j + cnj alpha * sum2 k A lda B ldb j j)
               + beta * Re (C (offs ldc j j))))"
proof -
  let ?p = "offs ldc j j"
  have other: "?p \<noteq> offs ldc i j'" if "j' < n" "j' \<noteq> j" "i < n" for i j'
    using that assms by (simp add: offs_inj)
  have nu: "notrans_upper_col k alpha A lda B ldb beta ldc j' X ?p = X ?p"
    if "j' < n" "j' \<noteq> j" for j' X
    by (rule notrans_upper_col_other) (use that other in auto)
  have nl: "notrans_lower_col n k alpha A lda B ldb beta ldc j' X ?p = X ?p"
    if "j' < n" "j' \<noteq> j" for j' X
    by (rule notrans_lower_col_other) (use that other in auto)
  have cu: "conjtrans_upper_col k alpha A lda B ldb beta ldc j' X ?p = X ?p"
    if "j' < n" "j' \<noteq> j" for j' X
    by (rule conjtrans_upper_col_other) (use that other in auto)
  have cl: "conjtrans_lower_col n k alpha A lda B ldb beta ldc j' X ?p = X ?p"
    if "j' < n" "j' \<noteq> j" for j' X
    by (rule conjtrans_lower_col_other) (use that other in auto)
  show ?thesis
  proof (cases "tr = NoTrans")
    case True
    show ?thesis
    proof (cases "uplo \<noteq> Lower")
      case True
      have "fold (notrans_upper_col k alpha A lda B ldb beta ldc) [0..<n] C ?p
        = of_real (beta * Re (C ?p)
               + (\<Sum>l<k. 2 * Re (A (offs lda j l) * alphaConjBjl alpha B ldb j l)))"
        by (rule fold_upt_local [where j = j and v = "\<lambda>c. of_real (beta * Re c + (\<Sum>l<k. 2 * Re (A (offs lda j l) * alphaConjBjl alpha B ldb j l)))"])
           (rule assms(2), rule nu, assumption+, rule notrans_upper_col_diag)
      with True \<open>tr = NoTrans\<close> show ?thesis by (simp add: her2k_update_def)
    next
      case False
      have "fold (notrans_lower_col n k alpha A lda B ldb beta ldc) [0..<n] C ?p
        = of_real (beta * Re (C ?p)
               + (\<Sum>l<k. 2 * Re (A (offs lda j l) * alphaConjBjl alpha B ldb j l)))"
        by (rule fold_upt_local [where j = j and v = "\<lambda>c. of_real (beta * Re c + (\<Sum>l<k. 2 * Re (A (offs lda j l) * alphaConjBjl alpha B ldb j l)))"])
           (rule assms(2), rule nl, assumption+, rule notrans_lower_col_diag)
      with False \<open>tr = NoTrans\<close> show ?thesis by (simp add: her2k_update_def)
    qed
  next
    case False
    note nt = this
    show ?thesis
    proof (cases "uplo \<noteq> Lower")
      case True
      have "fold (conjtrans_upper_col k alpha A lda B ldb beta ldc) [0..<n] C ?p
        = of_real (Re (alpha * sum1 k A lda B ldb j j + cnj alpha * sum2 k A lda B ldb j j)
               + beta * Re (C ?p))"
        by (rule fold_upt_local [where j = j and v = "\<lambda>c. of_real (Re (alpha * sum1 k A lda B ldb j j + cnj alpha * sum2 k A lda B ldb j j) + beta * Re c)"])
           (rule assms(2), rule cu, assumption+, rule conjtrans_upper_col_diag)
      with True nt show ?thesis by (simp add: her2k_update_def)
    next
      case False
      have "fold (conjtrans_lower_col n k alpha A lda B ldb beta ldc) [0..<n] C ?p
        = of_real (Re (alpha * sum1 k A lda B ldb j j + cnj alpha * sum2 k A lda B ldb j j)
               + beta * Re (C ?p))"
        by (rule fold_upt_local [where j = j and v = "\<lambda>c. of_real (Re (alpha * sum1 k A lda B ldb j j + cnj alpha * sum2 k A lda B ldb j j) + beta * Re c)"])
           (rule assms(2), rule cl, assumption+, rule conjtrans_lower_col_diag [OF assms(2)])
      with False nt show ?thesis by (simp add: her2k_update_def)
    qed
  qed
qed

lemma her2k_update_diag_real:
  assumes "n \<le> ldc" "j < n"
  shows "Im (her2k_update uplo tr n k alpha A lda B ldb beta C ldc (offs ldc j j)) = 0"
  by (simp add: her2k_update_diag [OF assms])

subsection \<open>The mirroring loop\<close>

lemma mirror_col_other:
  assumes "\<And>i. j < i \<Longrightarrow> i < n \<Longrightarrow> p \<noteq> offs ldc i j"
  shows "mirror_col n ldc j C p = C p"
  unfolding mirror_col_def
  by (rule fold_frame) (use assms in auto)

lemma mirror_col_at:
  assumes "n \<le> ldc" "j < i" "i < n"
  shows "mirror_col n ldc j C (offs ldc i j) = cnj (C (offs ldc j i))"
  using assms
proof (induction n)
  case 0
  then show ?case by simp
next
  case (Suc n)
  let ?X = "mirror_col n ldc j C"
  from Suc.prems have jn: "j < n" and nl: "n \<le> ldc" and n': "n < ldc" by auto
  have step: "mirror_col (Suc n) ldc j C = ?X(offs ldc n j := cnj (?X (offs ldc j n)))"
    using jn by (simp add: mirror_col_def)
  show ?case
  proof (cases "i = n")
    case True
    have "?X (offs ldc j n) = C (offs ldc j n)"
      by (rule mirror_col_other) (use jn n' in \<open>simp add: offs_inj\<close>)
    with True show ?thesis by (simp add: step)
  next
    case False
    with Suc.prems have "i < n" by simp
    with Suc.IH nl Suc.prems(2) have "?X (offs ldc i j) = cnj (C (offs ldc j i))" by simp
    with False show ?thesis by (simp add: step)
  qed
qed

lemma mirror_upper:
  assumes "n \<le> ldc" "i \<le> j" "j < n"
  shows "mirror n ldc C (offs ldc i j) = C (offs ldc i j)"
  unfolding mirror_def
proof (rule fold_frame)
  fix j' X
  assume "j' \<in> set [0..<n]"
  then have "j' < n" by simp
  show "mirror_col n ldc j' X (offs ldc i j) = X (offs ldc i j)"
    by (rule mirror_col_other) (use assms \<open>j' < n\<close> in \<open>auto simp: offs_inj\<close>)
qed

lemma mirror_lower:
  assumes "n \<le> ldc" "j < i" "i < n"
  shows "mirror n ldc C (offs ldc i j) = cnj (C (offs ldc j i))"
proof -
  let ?p = "offs ldc i j"
  let ?X = "fold (mirror_col n ldc) [0..<j] C"
  from assms have jn: "j < n" by simp
  have frame: "mirror_col n ldc j' X ?p = X ?p" if "j' < n" "j' \<noteq> j" for j' X
    by (rule mirror_col_other) (use assms that in \<open>auto simp: offs_inj\<close>)
  have "mirror n ldc C ?p = mirror_col n ldc j ?X ?p"
    unfolding mirror_def
    by (rule fold_upt_at [where f = "mirror_col n ldc" and p = ?p, OF jn frame])
  also have "\<dots> = cnj (?X (offs ldc j i))"
    by (rule mirror_col_at [OF assms])
  also have "?X (offs ldc j i) = C (offs ldc j i)"
  proof (rule fold_frame)
    fix j' X
    assume "j' \<in> set [0..<j]"
    then have "j' < j" by simp
    show "mirror_col n ldc j' X (offs ldc j i) = X (offs ldc j i)"
      by (rule mirror_col_other) (use assms \<open>j' < j\<close> in \<open>auto simp: offs_inj\<close>)
  qed
  finally show ?thesis .
qed

lemma sum1_eq: "sum1 k A lda B ldb i j = (\<Sum>l<k. cnj (A (offs lda l i)) * B (offs ldb l j))"
  unfolding sum1_def by (induction k) simp_all

lemma sum2_eq: "sum2 k A lda B ldb i j = (\<Sum>l<k. cnj (B (offs ldb l i)) * A (offs lda l j))"
  unfolding sum2_def by (induction k) simp_all

subsection \<open>The call as a column-major problem\<close>

lemma her2k_as_colmajor:
  assumes "her2k layout uplo tr n k alpha A lda B ldb beta C ldc = Inr C'"
  shows "her2k_colmajor (if layout = RowMajor then swap_uplo uplo else uplo)
           (if layout = RowMajor then flip_trans tr else tr) n k
           (if layout = RowMajor then cnj alpha else alpha) A lda B ldb beta C ldc = Inr C'"
  using assms by (simp add: her2k_def split: if_splits)

lemma her2k_colmajor_diag:
  assumes "alpha \<noteq> 0"
    and "her2k_colmajor uplo tr n k alpha A lda B ldb beta C ldc = Inr C'"
    and "j < n"
  shows "C' (offs ldc j j)
     = (if tr = NoTrans
        then of_real (beta * Re (C (offs ldc j j))
               + (\<Sum>l<k. 2 * Re (A (offs lda j l) * alphaConjBjl alpha B ldb j l)))
        else of_real (Re (alpha * sum1 k A lda B ldb j j + cnj alpha * sum2 k A lda B ldb j j)
               + beta * Re (C (offs ldc j j))))"
proof -
  let ?U = "her2k_update uplo tr n k alpha A lda B ldb beta C ldc"
  from assms have ld: "n \<le> ldc" and C': "C' = (if uplo = General then mirror n ldc ?U else ?U)"
    by (auto simp: her2k_colmajor_def Let_def split: if_splits)
  have "C' (offs ldc j j) = ?U (offs ldc j j)"
    unfolding C' using mirror_upper [OF ld order_refl assms(3)] by simp
  then show ?thesis
    by (simp only: her2k_update_diag [OF ld assms(3)])
qed

lemma her2k_colmajor_general_hermitian:
  assumes "alpha \<noteq> 0"
    and "her2k_colmajor General tr n k alpha A lda B ldb beta C ldc = Inr C'"
    and "i < n" "j < n"
  shows "C' (offs ldc i j) = cnj (C' (offs ldc j i))"
proof -
  let ?U = "her2k_update General tr n k alpha A lda B ldb beta C ldc"
  from assms(1,2,3) have ld: "n \<le> ldc" and C': "C' = mirror n ldc ?U"
    by (auto simp: her2k_colmajor_def Let_def split: if_splits)
  consider "i < j" | "i = j" | "j < i" by linarith
  then show ?thesis
  proof cases
    case 1
    then have "C' (offs ldc j i) = cnj (?U (offs ldc i j))"
      unfolding C' using ld assms(4) by (intro mirror_lower)
    moreover have "C' (offs ldc i j) = ?U (offs ldc i j)"
      unfolding C' using ld 1 assms(4) by (intro mirror_upper) simp_all
    ultimately show ?thesis by simp
  next
    case 2
    have "C' (offs ldc j j) = ?U (offs ldc j j)"
      unfolding C' using ld assms(4) by (intro mirror_upper) simp_all
    moreover have "Im (?U (offs ldc j j)) = 0"
      using ld assms(4) by (rule her2k_update_diag_real)
    ultimately show ?thesis using 2 by (simp add: complex_eq_iff)
  next
    case 3
    then have "C' (offs ldc i j) = cnj (?U (offs ldc j i))"
      unfolding C' using ld assms(3) by (intro mirror_lower)
    moreover have "C' (offs ldc j i) = ?U (offs ldc j i)"
      unfolding C' using ld 3 assms(3) by (intro mirror_upper) simp_all
    ultimately show ?thesis by simp
  qed
qed

text \<open>Unfolding the routine at a concrete input.\<close>

lemmas her2k_run = her2k_def her2k_colmajor_def her2k_update_def her2k_alpha_zero_def
  notrans_upper_col_def notrans_lower_col_def conjtrans_upper_col_def conjtrans_lower_col_def
  conjtrans_entry_def sum1_def sum2_def rank1_rows_def rank1_diag_def alphaConjBjl_def
  conjAlphaAjl_def scale_rows_def scale_diag_def zero_rows_def mirror_def mirror_col_def
  swap_uplo_def flip_trans_def upt_rec

section \<open>Properties of \<open>gelqf\<close>\<close>

lemma gelqf_loop_steps:
  assumes "k \<le> j + c * nb" "c = 0 \<or> j + (c - 1) * nb < k"
  shows "gelqf_loop gelq2 larft larfb m n k nb j s
           = Some (fold (gelqf_panel gelq2 larft larfb m n k nb)
                     (map (\<lambda>i. j + i * nb) [0..<c]) s)"
  using assms
proof (induction c arbitrary: j s)
  case 0
  then show ?case by (simp add: gelqf_loop.simps)
next
  case (Suc c)
  from Suc.prems(2) have "j + c * nb < k" by simp
  then have jk: "j < k" by simp
  have a: "k \<le> (j + nb) + c * nb" using Suc.prems(1) by simp
  have b: "c = 0 \<or> (j + nb) + (c - 1) * nb < k"
    using \<open>j + c * nb < k\<close> by (cases c) simp_all
  have l: "map (\<lambda>i. j + i * nb) [0..<Suc c] = j # map (\<lambda>i. (j + nb) + i * nb) [0..<c]"
    by (simp add: upt_conv_Cons map_Suc_upt [symmetric] del: upt_Suc) 
  show ?case
    by (subst gelqf_loop.simps) (simp add: jk Suc.IH [OF a b] l del: upt_Suc)
qed

lemma ceil_steps:
  fixes k nb :: nat
  assumes "0 < nb"
  shows "k \<le> ((k + nb - 1) div nb) * nb"
    and "(k + nb - 1) div nb = 0 \<or> ((k + nb - 1) div nb - 1) * nb < k"
proof -
  let ?c = "(k + nb - 1) div nb"
  have eq: "?c * nb + (k + nb - 1) mod nb = k + nb - 1"
    by simp
  have lt: "(k + nb - 1) mod nb < nb"
    using assms by simp
  from eq lt show "k \<le> ?c * nb" by linarith
  show "?c = 0 \<or> (?c - 1) * nb < k"
  proof (cases "?c = 0")
    case False
    then have "(?c - 1) * nb + nb = ?c * nb"
      by (metis Suc_pred' mult_Suc neq0_conv add.commute)
    with eq assms show ?thesis by linarith
  qed simp
qed

lemma gelqf_loop_never_returns:
  assumes "gelqf_loop gelq2 larft larfb m n k nb j s = Some s'"
  shows "\<not> (nb = 0 \<and> j < k)"
  by (rule gelqf_loop.raw_induct
        [where P = "\<lambda>g2 lt lb m n k nb j s y. \<not> (nb = 0 \<and> j < k)", OF _ assms])
     (fastforce split: if_splits)

lemma gelqf_loop_stuck:
  assumes "nb = 0" "j < k"
  shows "gelqf_loop gelq2 larft larfb m n k nb j s = None"
proof (cases "gelqf_loop gelq2 larft larfb m n k nb j s")
  case (Some s')
  from gelqf_loop_never_returns [OF this] assms show ?thesis by simp
qed simp

lemma gelqf_loop_from_zero:
  assumes "0 < nb"
  shows "gelqf_loop gelq2 larft larfb m n k nb 0 s
           = Some (fold (gelqf_panel gelq2 larft larfb m n k nb) (panel_starts nb k) s)"
proof -
  let ?c = "(k + nb - 1) div nb"
  have a: "k \<le> 0 + ?c * nb"
    using ceil_steps(1) [OF assms, of k] by simp
  have b: "?c = 0 \<or> 0 + (?c - 1) * nb < k"
    using ceil_steps(2) [OF assms, of k] by simp
  from gelqf_loop_steps [OF a b] show ?thesis
    by (simp add: panel_starts_def)
qed

lemma ceil_div:
  fixes k nb :: nat
  assumes "0 < nb"
  shows "nat \<lceil>real k / real nb\<rceil> = (k + nb - 1) div nb"
proof -
  let ?c = "(k + nb - 1) div nb"
  have up: "real k \<le> real (?c * nb)"
    using ceil_steps(1) [OF assms, of k] by (simp only: of_nat_le_iff)
  have le: "real k / real nb \<le> of_int (int ?c)"
    using up assms by (simp add: pos_divide_le_eq)
  have lt: "of_int (int ?c) - 1 < real k / real nb"
  proof (cases "?c = 0")
    case True
    have "(0::real) \<le> real k / real nb" by simp
    then have "(- 1::real) < real k / real nb" by linarith
    with True show ?thesis by simp
  next
    case False
    with ceil_steps(2) [OF assms, of k] have "(?c - 1) * nb < k" by simp
    then have "real ((?c - 1) * nb) < real k" by (simp only: of_nat_less_iff)
    moreover have "real (?c - 1) = real ?c - 1" using False by (simp add: of_nat_diff)
    ultimately have "(real ?c - 1) * real nb < real k" by simp
    then show ?thesis using assms by (simp add: pos_less_divide_eq)
  qed
  have "\<lceil>real k / real nb\<rceil> = int ?c"
    by (rule ceiling_unique [OF lt le])
  then show ?thesis by simp
qed

text \<open>Unfolding the routine at a concrete input.\<close>

lemmas gelqf_run = ex_args_def ex_args_read_only_def ex_matrix_def count_gelq2_def count_larft_def
  count_larfb_def gelqf_panel_def panel_starts_def Let_def upt_rec

section \<open>The claims about \<open>her2k\<close>\<close>

subsection \<open>Zero fill\<close>

text \<open>
  Claim C1: with \<open>alpha = 0\<close> and \<open>beta = 0\<close>, \<open>her2k\<close> is to write zero into exactly
  the referenced triangle of \<open>C\<close> and leave the other triangle unchanged. The routine
  does not: at line 167 the test \<open>uplo != Uplo::Upper\<close> selects the loop over \<open>i <= j\<close>,
  the upper triangle, for \<open>Lower\<close> and for \<open>General\<close>. Run on the column-major 2-by-2
  matrix with entries \<open>1, 2, 3, 4\<close> and \<open>uplo = Lower\<close>, the call zeroes \<open>C(0,0)\<close>,
  \<open>C(0,1)\<close> and \<open>C(1,1)\<close>: the referenced entry \<open>C(1,0)\<close> keeps its value 2, and the
  entry \<open>C(0,1)\<close> outside the referenced triangle, 3 on entry, is overwritten with 0.
  With \<open>uplo = General\<close> the same three entries are zeroed and \<open>C(1,0)\<close> is left at 2:
  the loop over the full matrix, lines 179-184, is never reached.
\<close>

theorem her2k_zero_fill_lower_writes_upper:
  "her2k ColMajor Lower NoTrans 2 0 0 zeros 2 zeros 2 0 counting 2
     = Inr (counting(offs 2 0 0 := 0, offs 2 0 1 := 0, offs 2 1 1 := 0))
   \<and> referenced Lower 1 0
   \<and> entry ColMajor 2 (counting(offs 2 0 0 := 0, offs 2 0 1 := 0, offs 2 1 1 := 0)) 1 0 = 2
   \<and> \<not> referenced Lower 0 1
   \<and> entry ColMajor 2 counting 0 1 = 3
   \<and> entry ColMajor 2 (counting(offs 2 0 0 := 0, offs 2 0 1 := 0, offs 2 1 1 := 0)) 0 1 = 0
   \<and> her2k ColMajor General NoTrans 2 0 0 zeros 2 zeros 2 0 counting 2
     = Inr (counting(offs 2 0 0 := 0, offs 2 0 1 := 0, offs 2 1 1 := 0))
   \<and> referenced General 1 0"
  by (simp add: her2k_run offs_def entry_def referenced_def counting_def fun_eq_iff)

subsection \<open>The quick return for \<open>alpha = 0\<close>, \<open>beta = 1\<close>\<close>

text \<open>
  Claim C2, as the routine has it: a call with \<open>alpha = 0\<close> and \<open>beta = 1\<close> that passes
  the argument checks leaves all of \<open>C\<close> unchanged, the diagonal included. Line 185 guards
  the scaling by \<open>beta != one\<close>, so nothing is written and a diagonal entry keeps its
  imaginary part.
\<close>

theorem her2k_alpha_zero_beta_one_unchanged:
  assumes "her2k layout uplo tr n k 0 A lda B ldb 1 C ldc = Inr C'"
  shows "C' = C"
  using assms by (simp add: her2k_def her2k_colmajor_def her2k_alpha_zero_def split: if_splits)

text \<open>The theorem at a 2-by-2 call on the array of imaginary units.\<close>

theorem her2k_alpha_zero_beta_one_unchanged_witness:
  "her2k ColMajor Upper NoTrans 2 1 0 unit_0 2 unit_1 2 1 imag_units 2 = Inr imag_units"
proof -
  obtain C' where r: "her2k ColMajor Upper NoTrans 2 1 0 unit_0 2 unit_1 2 1 imag_units 2 = Inr C'"
    by (simp add: her2k_def her2k_colmajor_def)
  from her2k_alpha_zero_beta_one_unchanged [OF r] r show ?thesis by simp
qed

text \<open>
  The diagonal is not forced to its real part: the 1-by-1 matrix \<open>(\<i>)\<close> comes back as it
  went in, and \<open>\<i>\<close> is not the real part of \<open>\<i>\<close>.
\<close>

theorem her2k_alpha_zero_beta_one_diagonal_counterexample:
  "her2k ColMajor Upper NoTrans 1 0 0 zeros 1 zeros 1 1 imag_units 1 = Inr imag_units
   \<and> entry ColMajor 1 imag_units 0 0 \<noteq> of_real (Re (entry ColMajor 1 imag_units 0 0))
   \<and> Im (entry ColMajor 1 imag_units 0 0) \<noteq> 0"
  by (simp add: her2k_def her2k_colmajor_def her2k_alpha_zero_def entry_def imag_units_def
        complex_eq_iff)

subsection \<open>Hermitian output for \<open>Uplo::General\<close>\<close>

text \<open>
  Claim C3, as the routine has it: a call with \<open>uplo = General\<close> and \<open>alpha \<noteq> 0\<close> that
  passes the argument checks leaves \<open>C\<close> Hermitian: \<open>C(i,j) = conj(C(j,i))\<close> for all
  \<open>i, j < n\<close>, and every diagonal entry is real. The mirroring loop of lines 300-305 is
  reached only when \<open>alpha \<noteq> 0\<close>; the case \<open>alpha = 0\<close> returns at line 210 before it.
\<close>

theorem her2k_general_hermitian:
  assumes "alpha \<noteq> 0"
    and "her2k layout General tr n k alpha A lda B ldb beta C ldc = Inr C'"
    and "i < n" "j < n"
  shows "entry layout ldc C' i j = cnj (entry layout ldc C' j i)
         \<and> Im (entry layout ldc C' j j) = 0"
proof -
  let ?alpha = "if layout = RowMajor then cnj alpha else alpha"
  have a: "?alpha \<noteq> 0" using assms(1) by simp
  have "her2k_colmajor General (if layout = RowMajor then flip_trans tr else tr) n k ?alpha
          A lda B ldb beta C ldc = Inr C'"
    using her2k_as_colmajor [OF assms(2)] by (cases layout) (simp_all add: swap_uplo_def)
  note h = her2k_colmajor_general_hermitian [OF a this]
  have "entry layout ldc C' i j = cnj (entry layout ldc C' j i)"
    using h [OF assms(3,4)] h [OF assms(4,3)] by (simp add: entry_def)
  moreover have "Im (entry layout ldc C' j j) = 0"
    using h [OF assms(4,4)] by (simp add: entry_def complex_eq_iff)
  ultimately show ?thesis by simp
qed

text \<open>The theorem at a 2-by-2 call with \<open>alpha = \<i>\<close>, \<open>beta = 2\<close> and \<open>k = 1\<close>.\<close>

theorem her2k_general_hermitian_witness:
  "\<i> \<noteq> 0
   \<and> her2k ColMajor General NoTrans 2 1 \<i> unit_0 2 unit_1 2 2 counting 2
       = Inr (counting(offs 2 0 0 := 2, offs 2 0 1 := 6 + \<i>, offs 2 1 1 := 8, offs 2 1 0 := 6 - \<i>))
   \<and> (0::nat) < 2 \<and> (1::nat) < 2
   \<and> entry ColMajor 2
         (counting(offs 2 0 0 := 2, offs 2 0 1 := 6 + \<i>, offs 2 1 1 := 8, offs 2 1 0 := 6 - \<i>)) 0 1
       = cnj (entry ColMajor 2
         (counting(offs 2 0 0 := 2, offs 2 0 1 := 6 + \<i>, offs 2 1 1 := 8, offs 2 1 0 := 6 - \<i>)) 1 0)
   \<and> Im (entry ColMajor 2
         (counting(offs 2 0 0 := 2, offs 2 0 1 := 6 + \<i>, offs 2 1 1 := 8, offs 2 1 0 := 6 - \<i>)) 1 1) = 0"
proof -
  have a: "\<i> \<noteq> 0" by simp
  have r: "her2k ColMajor General NoTrans 2 1 \<i> unit_0 2 unit_1 2 2 counting 2
       = Inr (counting(offs 2 0 0 := 2, offs 2 0 1 := 6 + \<i>, offs 2 1 1 := 8, offs 2 1 0 := 6 - \<i>))"
    by (simp add: her2k_run offs_def counting_def unit_0_def unit_1_def fun_eq_iff complex_eq_iff)
  have i: "(0::nat) < 2" and j: "(1::nat) < 2" by simp_all
  from her2k_general_hermitian [OF a r i j] a r show ?thesis by simp
qed

text \<open>
  With \<open>alpha = 0\<close> and \<open>beta = 1\<close> the call returns the matrix with entries \<open>1, 2, 3, 4\<close>
  as it is, and there \<open>C(0,1) = 3\<close> is not the conjugate of \<open>C(1,0) = 2\<close>.
\<close>

theorem her2k_general_hermitian_counterexample:
  "her2k ColMajor General NoTrans 2 0 0 zeros 2 zeros 2 1 counting 2 = Inr counting
   \<and> entry ColMajor 2 counting 0 1 \<noteq> cnj (entry ColMajor 2 counting 1 0)"
  by (simp add: her2k_def her2k_colmajor_def her2k_alpha_zero_def entry_def counting_def offs_def)

subsection \<open>Row-major calls\<close>

text \<open>
  Claim C4: a row-major call with triangle selector \<open>uplo\<close>, operation \<open>tr\<close> (\<open>NoTrans\<close>
  or \<open>ConjTrans\<close>) and scalar \<open>alpha\<close> gives the result of the column-major call with
  the selector swapped, the operation flipped and \<open>conj(alpha)\<close>, on the same arrays,
  failures included; both are the one column-major body of lines 157-305 run on these
  arguments, once the checks of \<open>lda\<close> and \<open>ldb\<close> have passed.
\<close>

theorem her2k_rowmajor_as_colmajor:
  assumes "tr \<noteq> Trans"
  shows "her2k RowMajor uplo tr n k alpha A lda B ldb beta C ldc
           = her2k ColMajor (swap_uplo uplo) (flip_trans tr) n k (cnj alpha)
               A lda B ldb beta C ldc
       \<and> her2k RowMajor uplo tr n k alpha A lda B ldb beta C ldc
           = (if lda < (if tr = NoTrans then k else n) \<or> ldb < (if tr = NoTrans then k else n)
              then Inl InvalidArgument
              else her2k_colmajor (swap_uplo uplo) (flip_trans tr) n k (cnj alpha)
                     A lda B ldb beta C ldc)"
  using assms by (cases tr) (simp_all add: her2k_def flip_trans_def)

text \<open>The theorem at a 2-by-2 call with \<open>alpha = \<i>\<close>: both sides are the same run.\<close>

theorem her2k_rowmajor_as_colmajor_witness:
  "NoTrans \<noteq> Trans
   \<and> her2k RowMajor Lower NoTrans 2 1 \<i> unit_0 1 unit_1 1 2 counting 2
       = her2k ColMajor Upper ConjTrans 2 1 (- \<i>) unit_0 1 unit_1 1 2 counting 2
   \<and> her2k RowMajor Lower NoTrans 2 1 \<i> unit_0 1 unit_1 1 2 counting 2
       = Inr (counting(offs 2 0 0 := 2, offs 2 0 1 := 6 - \<i>, offs 2 1 1 := 8))"
proof -
  have r: "her2k_colmajor Upper ConjTrans 2 1 (- \<i>) unit_0 1 unit_1 1 2 counting 2
             = Inr (counting(offs 2 0 0 := 2, offs 2 0 1 := 6 - \<i>, offs 2 1 1 := 8))"
    by (simp add: her2k_run offs_def counting_def unit_0_def unit_1_def fun_eq_iff
          complex_eq_iff)
  have ne: "NoTrans \<noteq> Trans" by simp
  note t = her2k_rowmajor_as_colmajor [OF ne, of Lower 2 1 \<i> unit_0 1 unit_1 1 2 counting 2]
  have e1: "her2k RowMajor Lower NoTrans 2 1 \<i> unit_0 1 unit_1 1 2 counting 2
       = her2k ColMajor Upper ConjTrans 2 1 (- \<i>) unit_0 1 unit_1 1 2 counting 2"
    using t [THEN conjunct1] by (simp add: swap_uplo_def flip_trans_def)
  have e2: "her2k RowMajor Lower NoTrans 2 1 \<i> unit_0 1 unit_1 1 2 counting 2
       = Inr (counting(offs 2 0 0 := 2, offs 2 0 1 := 6 - \<i>, offs 2 1 1 := 8))"
    using t [THEN conjunct2] r by (simp add: swap_uplo_def flip_trans_def)
  show ?thesis by (intro conjI ne e1 e2)
qed

subsection \<open>The diagonal for \<open>alpha \<noteq> 0\<close>\<close>

text \<open>
  Claim C5: after a call with \<open>alpha \<noteq> 0\<close> that passes the argument checks, every
  diagonal entry of \<open>C\<close> has imaginary part zero. In the \<open>NoTrans\<close> case it is
  \<open>beta * real(C(j,j))\<close> on entry plus the sum over \<open>l\<close> of
  \<open>2 * real(A(j,l) * alpha * conj(B(j,l)))\<close>; in the \<open>ConjTrans\<close> case it is
  \<open>real(alpha*sum1 + conj(alpha)*sum2) + beta * real(C(j,j))\<close>. The case and \<open>alpha\<close>
  are those of the column-major problem: for a row-major call the operation is flipped
  and \<open>alpha\<close> conjugated.
\<close>

theorem her2k_diagonal_real:
  assumes "alpha \<noteq> 0"
    and "her2k layout uplo tr n k alpha A lda B ldb beta C ldc = Inr C'"
    and "j < n"
  shows "Im (entry layout ldc C' j j) = 0
     \<and> entry layout ldc C' j j
       = (let tr' = (if layout = RowMajor then flip_trans tr else tr);
              alpha' = (if layout = RowMajor then cnj alpha else alpha)
          in if tr' = NoTrans
             then of_real (beta * Re (entry layout ldc C j j)
                    + (\<Sum>l<k. 2 * Re (A (offs lda j l) * (alpha' * cnj (B (offs ldb j l))))))
             else of_real (Re (alpha' * sum1 k A lda B ldb j j
                               + cnj alpha' * sum2 k A lda B ldb j j)
                    + beta * Re (entry layout ldc C j j)))"
proof -
  let ?alpha = "if layout = RowMajor then cnj alpha else alpha"
  have a: "?alpha \<noteq> 0" using assms(1) by simp
  have e: "entry layout ldc C' j j = C' (offs ldc j j)"
    and e0: "entry layout ldc C j j = C (offs ldc j j)"
    by (simp_all add: entry_def)
  note d = her2k_colmajor_diag [OF a her2k_as_colmajor [OF assms(2)] assms(3)]
  have v: "entry layout ldc C' j j
       = (let tr' = (if layout = RowMajor then flip_trans tr else tr);
              alpha' = (if layout = RowMajor then cnj alpha else alpha)
          in if tr' = NoTrans
             then of_real (beta * Re (entry layout ldc C j j)
                    + (\<Sum>l<k. 2 * Re (A (offs lda j l) * (alpha' * cnj (B (offs ldb j l))))))
             else of_real (Re (alpha' * sum1 k A lda B ldb j j
                               + cnj alpha' * sum2 k A lda B ldb j j)
                    + beta * Re (entry layout ldc C j j)))"
    unfolding e e0 d Let_def alphaConjBjl_def ..
  have "Im (entry layout ldc C' j j) = 0"
    unfolding e d by simp
  with v show ?thesis by simp
qed

text \<open>
  The theorem at a 2-by-2 call with \<open>uplo = Lower\<close>, \<open>alpha = 1\<close>, \<open>beta = 2\<close>, \<open>k = 1\<close>:
  the entry \<open>C(1,1) = \<i>\<close> becomes \<open>2 * 0 + 2 * real(2 * 1 * 2) = 8\<close>.
\<close>

theorem her2k_diagonal_real_witness:
  "(1::complex) \<noteq> 0
   \<and> her2k ColMajor Lower NoTrans 2 1 1 counting 2 counting 2 2 imag_units 2
       = Inr (imag_units(offs 2 0 0 := 2, offs 2 1 0 := 4 + 2 * \<i>, offs 2 1 1 := 8))
   \<and> (1::nat) < 2
   \<and> Im (entry ColMajor 2
           (imag_units(offs 2 0 0 := 2, offs 2 1 0 := 4 + 2 * \<i>, offs 2 1 1 := 8)) 1 1) = 0
   \<and> entry ColMajor 2
        (imag_units(offs 2 0 0 := 2, offs 2 1 0 := 4 + 2 * \<i>, offs 2 1 1 := 8)) 1 1 = 8"
proof -
  have a: "(1::complex) \<noteq> 0" by simp
  have r: "her2k ColMajor Lower NoTrans 2 1 1 counting 2 counting 2 2 imag_units 2
       = Inr (imag_units(offs 2 0 0 := 2, offs 2 1 0 := 4 + 2 * \<i>, offs 2 1 1 := 8))"
    by (simp add: her2k_run offs_def counting_def imag_units_def fun_eq_iff complex_eq_iff)
  have j: "(1::nat) < 2" by simp
  note t = her2k_diagonal_real [OF a r j]
  have i: "Im (entry ColMajor 2
           (imag_units(offs 2 0 0 := 2, offs 2 1 0 := 4 + 2 * \<i>, offs 2 1 1 := 8)) 1 1) = 0"
    by (rule t [THEN conjunct1])
  have e: "entry ColMajor 2
        (imag_units(offs 2 0 0 := 2, offs 2 1 0 := 4 + 2 * \<i>, offs 2 1 1 := 8)) 1 1 = 8"
    using t [THEN conjunct2]
    by (simp add: Let_def entry_def imag_units_def counting_def offs_def)
  show ?thesis by (intro conjI a r j i e)
qed

subsection \<open>A worked call\<close>

text \<open>
  Claim C6: the call with \<open>n = 2\<close>, \<open>k = 1\<close>, column-major layout, \<open>uplo = Upper\<close>,
  \<open>NoTrans\<close>, \<open>alpha = 1\<close>, \<open>beta = 0\<close>, \<open>A\<close> the column \<open>(1, 0)\<close> and \<open>B\<close> the column
  \<open>(0, 1)\<close> returns \<open>C\<close> with \<open>C(0,0) = 0\<close>, \<open>C(0,1) = 1\<close>, \<open>C(1,1) = 0\<close>, and with
  \<open>C(1,0)\<close>, like every other cell of the array, as it was on entry.
\<close>

theorem her2k_upper_notrans_example:
  assumes "A (offs lda 0 0) = 1" "A (offs lda 1 0) = 0"
    and "B (offs ldb 0 0) = 0" "B (offs ldb 1 0) = 1"
    and "2 \<le> lda" "2 \<le> ldb" "2 \<le> ldc"
  shows "let C' = C(offs ldc 0 0 := 0, offs ldc 0 1 := 1, offs ldc 1 1 := 0)
         in her2k ColMajor Upper NoTrans 2 1 1 A lda B ldb 0 C ldc = Inr C'
            \<and> entry ColMajor ldc C' 0 0 = 0 \<and> entry ColMajor ldc C' 0 1 = 1
            \<and> entry ColMajor ldc C' 1 1 = 0
            \<and> entry ColMajor ldc C' 1 0 = entry ColMajor ldc C 1 0"
  using assms by (simp add: her2k_run offs_def entry_def fun_eq_iff Let_def)

text \<open>The theorem at \<open>lda = ldb = ldc = 2\<close>, on the matrix with entries \<open>1, 2, 3, 4\<close>.\<close>

theorem her2k_upper_notrans_example_witness:
  "unit_0 (offs 2 0 0) = 1 \<and> unit_0 (offs 2 1 0) = 0
   \<and> unit_1 (offs 2 0 0) = 0 \<and> unit_1 (offs 2 1 0) = 1
   \<and> her2k ColMajor Upper NoTrans 2 1 1 unit_0 2 unit_1 2 0 counting 2
        = Inr (counting(offs 2 0 0 := 0, offs 2 0 1 := 1, offs 2 1 1 := 0))
   \<and> entry ColMajor 2 (counting(offs 2 0 0 := 0, offs 2 0 1 := 1, offs 2 1 1 := 0)) 1 0 = 2"
proof -
  have a: "unit_0 (offs 2 0 0) = 1" "unit_0 (offs 2 1 0) = 0"
    and b: "unit_1 (offs 2 0 0) = 0" "unit_1 (offs 2 1 0) = 1"
    by (simp_all add: unit_0_def unit_1_def offs_def)
  have c: "entry ColMajor 2 counting 1 0 = 2"
    by (simp add: entry_def counting_def offs_def)
  from her2k_upper_notrans_example [OF a b, where ldc = 2 and C = counting] a b c show ?thesis
    by (simp add: Let_def)
qed

subsection \<open>\<open>A\<close> and \<open>B\<close> are not read when \<open>alpha = 0\<close>\<close>

text \<open>
  Claim C10: two calls with \<open>alpha = 0\<close> that pass the argument checks and agree on the
  layout, \<open>uplo\<close>, \<open>trans\<close>, \<open>n\<close>, \<open>k\<close>, \<open>beta\<close>, \<open>ldc\<close> and the contents of \<open>C\<close>
  return the same \<open>C\<close>, whatever \<open>A\<close>, \<open>B\<close>, \<open>lda\<close> and \<open>ldb\<close> are in each.
\<close>

theorem her2k_alpha_zero_ignores_A_B:
  assumes "her2k layout uplo tr n k 0 A lda B ldb beta C ldc = Inr C1"
    and "her2k layout uplo tr n k 0 A' lda' B' ldb' beta C ldc = Inr C2"
  shows "C1 = C2"
  using assms by (simp add: her2k_def her2k_colmajor_def split: if_splits)

text \<open>
  The theorem at two 2-by-2 calls with \<open>beta = 2\<close> that differ in \<open>A\<close>, \<open>B\<close>, \<open>lda\<close> and
  \<open>ldb\<close>.
\<close>

theorem her2k_alpha_zero_ignores_A_B_witness:
  "her2k ColMajor Upper NoTrans 2 1 0 unit_0 2 unit_1 2 2 counting 2
     = Inr (counting(offs 2 1 0 := 4, offs 2 0 0 := 2, offs 2 1 1 := 8))
   \<and> her2k ColMajor Upper NoTrans 2 1 0 zeros 3 imag_units 5 2 counting 2
     = Inr (counting(offs 2 1 0 := 4, offs 2 0 0 := 2, offs 2 1 1 := 8))"
proof -
  have 1: "her2k ColMajor Upper NoTrans 2 1 0 unit_0 2 unit_1 2 2 counting 2
     = Inr (counting(offs 2 1 0 := 4, offs 2 0 0 := 2, offs 2 1 1 := 8))"
    by (simp add: her2k_run offs_def counting_def fun_eq_iff)
  obtain C2 where 2: "her2k ColMajor Upper NoTrans 2 1 0 zeros 3 imag_units 5 2 counting 2 = Inr C2"
    by (simp add: her2k_def her2k_colmajor_def)
  from her2k_alpha_zero_ignores_A_B [OF 1 2] 1 2 show ?thesis by simp
qed

section \<open>The claims about \<open>gelqf\<close>\<close>

subsection \<open>One panel when \<open>nb \<ge> k\<close>\<close>

text \<open>
  Claim C7: for an \<open>m\<close>-by-\<open>n\<close> matrix with \<open>k = min(m, n) > 0\<close> and a block height
  \<open>nb \<ge> k\<close>, a call that passes the argument checks runs the body of the panel loop
  once, at \<open>j = 0\<close>, and returns 0; that one run has \<open>ib = k\<close> and is the single call of
  \<open>gelq2\<close> on \<open>A[0:k, 0:n]\<close> with the diagonal of \<open>TT[0:k, 0:k]\<close> and \<open>work\<close>. Neither
  \<open>larft\<close> nor \<open>larfb\<close> is called: the result is the same whatever they are.
\<close>

theorem gelqf_single_panel:
  assumes "\<not> write_denied (arg_A s)"
    and "\<not> (nrows (arg_TT s) < m \<or> ncols (arg_TT s) < nb)"
    and "\<not> length (arg_work s) < m"
    and "m = nrows (arg_A s)" "n = ncols (arg_A s)" "k = min m n"
    and "0 < k" "k \<le> nb"
  shows "gelqf gelq2 larft larfb s nb = Some (0, gelqf_panel gelq2 larft larfb m n k nb 0 s)
       \<and> gelqf_panel gelq2 larft larfb m n k nb 0 s
           = gelq2 (slice Mat_A (0, k) (0, n)) (diag (slice Mat_TT (0, k) (0, k))) work s"
proof -
  have "gelqf_loop gelq2 larft larfb m n k nb 0 s
          = gelqf_loop gelq2 larft larfb m n k nb nb (gelqf_panel gelq2 larft larfb m n k nb 0 s)"
    using assms(7) by (subst gelqf_loop.simps) simp
  also have "\<dots> = Some (gelqf_panel gelq2 larft larfb m n k nb 0 s)"
    using assms(8) by (subst gelqf_loop.simps) simp
  finally have "gelqf gelq2 larft larfb s nb
                  = Some (0, gelqf_panel gelq2 larft larfb m n k nb 0 s)"
    using assms(1-6) by (simp add: gelqf_def Let_def)
  moreover have "gelqf_panel gelq2 larft larfb m n k nb 0 s
           = gelq2 (slice Mat_A (0, k) (0, n)) (diag (slice Mat_TT (0, k) (0, k))) work s"
    using assms(7,8) by (simp add: gelqf_panel_def Let_def min_def)
  ultimately show ?thesis by simp
qed

text \<open>The theorem at a 2-by-3 matrix with \<open>nb = 4\<close>: \<open>work\<close> counts one call of \<open>gelq2\<close>.\<close>

theorem gelqf_single_panel_witness:
  "\<not> write_denied (arg_A (ex_args 2 3 4))
   \<and> \<not> (nrows (arg_TT (ex_args 2 3 4)) < 2 \<or> ncols (arg_TT (ex_args 2 3 4)) < 4)
   \<and> \<not> length (arg_work (ex_args 2 3 4)) < 2
   \<and> 2 = nrows (arg_A (ex_args 2 3 4)) \<and> 3 = ncols (arg_A (ex_args 2 3 4))
   \<and> (2::nat) = min 2 3 \<and> (0::nat) < 2 \<and> (2::nat) \<le> 4
   \<and> gelqf count_gelq2 count_larft count_larfb (ex_args 2 3 4) 4
        = Some (0, count_gelq2 (slice Mat_A (0, 2) (0, 3)) (diag (slice Mat_TT (0, 2) (0, 2)))
                     work (ex_args 2 3 4))
   \<and> arg_work (count_gelq2 (slice Mat_A (0, 2) (0, 3)) (diag (slice Mat_TT (0, 2) (0, 2)))
                     work (ex_args 2 3 4)) = [1, 1]"
proof -
  have h: "\<not> write_denied (arg_A (ex_args 2 3 4))"
    "\<not> (nrows (arg_TT (ex_args 2 3 4)) < 2 \<or> ncols (arg_TT (ex_args 2 3 4)) < 4)"
    "\<not> length (arg_work (ex_args 2 3 4)) < 2"
    "2 = nrows (arg_A (ex_args 2 3 4))" "3 = ncols (arg_A (ex_args 2 3 4))" "(2::nat) = min 2 3"
    "(0::nat) < 2" "(2::nat) \<le> 4"
    by (simp_all add: ex_args_def ex_matrix_def)
  have w: "arg_work (count_gelq2 (slice Mat_A (0, 2) (0, 3)) (diag (slice Mat_TT (0, 2) (0, 2)))
                     work (ex_args 2 3 4)) = [1, 1]"
    by (simp add: count_gelq2_def ex_args_def numeral_2_eq_2)
  from gelqf_single_panel [OF h, of count_gelq2 count_larft count_larfb] h w
  show ?thesis by simp
qed

subsection \<open>The argument checks\<close>

text \<open>
  Claim C8, as the routine has it: \<open>gelqf\<close> makes three checks, in this order, before the
  panel loop, and the first that fails decides the result. It returns \<open>-1\<close> when \<open>A\<close> does
  not grant write access; otherwise \<open>-2\<close> when \<open>nrows(TT) < m\<close> or \<open>ncols(TT) < nb\<close>;
  otherwise \<open>-3\<close> when \<open>work\<close> is shorter than \<open>m\<close>; in each of these cases \<open>A\<close>, \<open>TT\<close>
  and \<open>work\<close> are as on entry. When no check fails and \<open>nb \<ge> 1\<close> or \<open>k = 0\<close>, the call
  returns \<open>0\<close>.
\<close>

theorem gelqf_argument_checks:
  assumes "m = nrows (arg_A s)" "n = ncols (arg_A s)" "k = min m n"
  shows "(write_denied (arg_A s) \<longrightarrow> gelqf gelq2 larft larfb s nb = Some (- 1, s))
       \<and> (\<not> write_denied (arg_A s) \<and> (nrows (arg_TT s) < m \<or> ncols (arg_TT s) < nb)
            \<longrightarrow> gelqf gelq2 larft larfb s nb = Some (- 2, s))
       \<and> (\<not> write_denied (arg_A s) \<and> \<not> (nrows (arg_TT s) < m \<or> ncols (arg_TT s) < nb)
            \<and> length (arg_work s) < m
            \<longrightarrow> gelqf gelq2 larft larfb s nb = Some (- 3, s))
       \<and> (\<not> write_denied (arg_A s) \<and> \<not> (nrows (arg_TT s) < m \<or> ncols (arg_TT s) < nb)
            \<and> \<not> length (arg_work s) < m \<and> (0 < nb \<or> k = 0)
            \<longrightarrow> (\<exists>s'. gelqf gelq2 larft larfb s nb = Some (0, s')))"
proof -
  have "\<exists>s'. gelqf_loop gelq2 larft larfb m n k nb 0 s = Some s'" if "0 < nb \<or> k = 0"
  proof (cases "0 < nb")
    case True
    then show ?thesis by (simp add: gelqf_loop_from_zero)
  next
    case False
    with that have "k = 0" by simp
    then show ?thesis by (subst gelqf_loop.simps) simp
  qed
  then show ?thesis
    using assms by (auto simp: gelqf_def Let_def)
qed

text \<open>
  The theorem at four calls on 2-by-2 matrices with \<open>nb = 2\<close>: \<open>A\<close> read-only, \<open>TT\<close> with
  one column, \<open>work\<close> of length one, and a call that passes the checks.
\<close>

theorem gelqf_argument_checks_witness:
  "gelqf count_gelq2 count_larft count_larfb (ex_args_read_only 2 2 2) 2
     = Some (- 1, ex_args_read_only 2 2 2)
   \<and> gelqf count_gelq2 count_larft count_larfb (ex_args 2 2 1) 2 = Some (- 2, ex_args 2 2 1)
   \<and> gelqf count_gelq2 count_larft count_larfb ((ex_args 2 2 2)\<lparr>arg_work := [0]\<rparr>) 2
       = Some (- 3, (ex_args 2 2 2)\<lparr>arg_work := [0]\<rparr>)
   \<and> (\<exists>s'. gelqf count_gelq2 count_larft count_larfb (ex_args 2 2 2) 2 = Some (0, s'))"
proof -
  have 1: "gelqf count_gelq2 count_larft count_larfb (ex_args_read_only 2 2 2) 2
     = Some (- 1, ex_args_read_only 2 2 2)"
    using gelqf_argument_checks [of 2 "ex_args_read_only 2 2 2" 2 2 count_gelq2 count_larft
        count_larfb 2]
    by (simp add: ex_args_read_only_def ex_args_def ex_matrix_def)
  have 2: "gelqf count_gelq2 count_larft count_larfb (ex_args 2 2 1) 2 = Some (- 2, ex_args 2 2 1)"
    using gelqf_argument_checks [of 2 "ex_args 2 2 1" 2 2 count_gelq2 count_larft count_larfb 2]
    by (simp add: ex_args_def ex_matrix_def)
  have 3: "gelqf count_gelq2 count_larft count_larfb ((ex_args 2 2 2)\<lparr>arg_work := [0]\<rparr>) 2
       = Some (- 3, (ex_args 2 2 2)\<lparr>arg_work := [0]\<rparr>)"
    using gelqf_argument_checks [of 2 "(ex_args 2 2 2)\<lparr>arg_work := [0]\<rparr>" 2 2 count_gelq2
        count_larft count_larfb 2]
    by (simp add: ex_args_def ex_matrix_def)
  have 4: "\<exists>s'. gelqf count_gelq2 count_larft count_larfb (ex_args 2 2 2) 2 = Some (0, s')"
    using gelqf_argument_checks [of 2 "ex_args 2 2 2" 2 2 count_gelq2 count_larft count_larfb 2]
    by (simp add: ex_args_def ex_matrix_def)
  from 1 2 3 4 show ?thesis by simp
qed

text \<open>
  A call that passes the three checks need not return \<open>0\<close>: with \<open>nb = 0\<close> on a 1-by-1
  matrix every check passes and the loop never advances \<open>j\<close>.
\<close>

theorem gelqf_zero_block_height_counterexample:
  "\<not> write_denied (arg_A (ex_args 1 1 0))
   \<and> \<not> (nrows (arg_TT (ex_args 1 1 0)) < nrows (arg_A (ex_args 1 1 0))
        \<or> ncols (arg_TT (ex_args 1 1 0)) < 0)
   \<and> \<not> length (arg_work (ex_args 1 1 0)) < nrows (arg_A (ex_args 1 1 0))
   \<and> gelqf count_gelq2 count_larft count_larfb (ex_args 1 1 0) 0 = None"
  by (simp add: gelqf_def Let_def gelqf_loop_stuck ex_args_def ex_matrix_def)

subsection \<open>The number of panels\<close>

text \<open>
  Claim C9: for an input that passes the argument checks with \<open>nb \<ge> 1\<close>, the panel loop
  ends after exactly \<open>\<lceil>k / nb\<rceil>\<close> runs of its body, at \<open>j = 0, nb, 2*nb, \<dots>\<close> in this
  order, and the call returns \<open>0\<close>; with \<open>nb = 0\<close> and \<open>k > 0\<close> the call does not return.
\<close>

theorem gelqf_panel_count:
  assumes "\<not> write_denied (arg_A s)"
    and "\<not> (nrows (arg_TT s) < m \<or> ncols (arg_TT s) < nb)"
    and "\<not> length (arg_work s) < m"
    and "m = nrows (arg_A s)" "n = ncols (arg_A s)" "k = min m n"
  shows "(0 < nb \<longrightarrow>
            gelqf gelq2 larft larfb s nb
              = Some (0, fold (gelqf_panel gelq2 larft larfb m n k nb) (panel_starts nb k) s)
            \<and> length (panel_starts nb k) = nat \<lceil>real k / real nb\<rceil>)
       \<and> (nb = 0 \<and> 0 < k \<longrightarrow> gelqf gelq2 larft larfb s nb = None)"
  using assms
  by (auto simp: gelqf_def Let_def gelqf_loop_from_zero gelqf_loop_stuck panel_starts_def ceil_div)

text \<open>
  The theorem at a 3-by-3 matrix with \<open>nb = 2\<close>: two panels, at 0 and 2, with two calls
  of \<open>gelq2\<close> and one each of \<open>larft\<close> and \<open>larfb\<close> counted in \<open>work\<close>; and at a 2-by-2
  matrix with \<open>nb = 0\<close>.
\<close>

theorem gelqf_panel_count_witness:
  "\<not> write_denied (arg_A (ex_args 3 3 2))
   \<and> \<not> (nrows (arg_TT (ex_args 3 3 2)) < 3 \<or> ncols (arg_TT (ex_args 3 3 2)) < 2)
   \<and> \<not> length (arg_work (ex_args 3 3 2)) < 3
   \<and> 3 = nrows (arg_A (ex_args 3 3 2)) \<and> 3 = ncols (arg_A (ex_args 3 3 2))
   \<and> (3::nat) = min 3 3 \<and> (0::nat) < 2
   \<and> gelqf count_gelq2 count_larft count_larfb (ex_args 3 3 2) 2
        = Some (0, (ex_args 3 3 2)\<lparr>arg_work := replicate 3 112\<rparr>)
   \<and> panel_starts 2 3 = [0, 2]
   \<and> length (panel_starts 2 3) = nat \<lceil>real 3 / real 2\<rceil>
   \<and> gelqf count_gelq2 count_larft count_larfb (ex_args 2 2 0) 0 = None"
proof -
  have h: "\<not> write_denied (arg_A (ex_args 3 3 2))"
    "\<not> (nrows (arg_TT (ex_args 3 3 2)) < 3 \<or> ncols (arg_TT (ex_args 3 3 2)) < 2)"
    "\<not> length (arg_work (ex_args 3 3 2)) < 3"
    "3 = nrows (arg_A (ex_args 3 3 2))" "3 = ncols (arg_A (ex_args 3 3 2))" "(3::nat) = min 3 3"
    by (simp_all add: ex_args_def ex_matrix_def)
  have p: "panel_starts 2 3 = [0, 2]"
    by (simp add: panel_starts_def upt_rec)
  have f: "fold (gelqf_panel count_gelq2 count_larft count_larfb 3 3 3 2) [0, 2] (ex_args 3 3 2)
             = (ex_args 3 3 2)\<lparr>arg_work := replicate 3 112\<rparr>"
    by (simp add: gelqf_run)
  have pos: "(0::nat) < 2" by simp
  note t = gelqf_panel_count [OF h, of count_gelq2 count_larft count_larfb,
      THEN conjunct1, THEN mp, OF pos]
  have g: "gelqf count_gelq2 count_larft count_larfb (ex_args 3 3 2) 2
             = Some (0, (ex_args 3 3 2)\<lparr>arg_work := replicate 3 112\<rparr>)"
    by (simp only: t [THEN conjunct1] p f)
  have c: "length (panel_starts 2 3) = nat \<lceil>real 3 / real 2\<rceil>"
    by (rule t [THEN conjunct2])
  have h0: "\<not> write_denied (arg_A (ex_args 2 2 0))"
    "\<not> (nrows (arg_TT (ex_args 2 2 0)) < 2 \<or> ncols (arg_TT (ex_args 2 2 0)) < 0)"
    "\<not> length (arg_work (ex_args 2 2 0)) < 2"
    "2 = nrows (arg_A (ex_args 2 2 0))" "2 = ncols (arg_A (ex_args 2 2 0))" "(2::nat) = min 2 2"
    by (simp_all add: ex_args_def ex_matrix_def)
  have z: "(0::nat) = 0 \<and> (0::nat) < 2" by simp
  have n: "gelqf count_gelq2 count_larft count_larfb (ex_args 2 2 0) 0 = None"
    by (rule gelqf_panel_count [OF h0, of count_gelq2 count_larft count_larfb,
          THEN conjunct2, THEN mp, OF z])
  show ?thesis by (intro conjI h pos g p c n)
qed

end
